theory Spec2Isabelle
  imports Main "HOL-Library.Word" "HOL-Library.Sublist"
begin

section \<open>Python values\<close>

text \<open>
  A Python \<open>str\<close> is a sequence of Unicode code points; \<open>len\<close>, indexing and the
  \<open>in\<close> operator all count code points. The string constants of \<open>app.py\<close> are
  Korean, so a string is modelled as the list of its code points.
\<close>

type_synonym pystr = "nat list"

definition ascii :: "string \<Rightarrow> pystr" where
  "ascii s = map of_char s"

text \<open>
  \<open>s.startswith(k)\<close> and \<open>k in s\<close> for two strings: \<open>in\<close> tries every start
  position from the left.
\<close>

fun startswith :: "pystr \<Rightarrow> pystr \<Rightarrow> bool" where
  "startswith s [] = True"
| "startswith [] (k # ks) = False"
| "startswith (c # s) (k # ks) = (c = k \<and> startswith s ks)"

fun str_contains :: "pystr \<Rightarrow> pystr \<Rightarrow> bool" where
  "str_contains k [] = (k = [])"
| "str_contains k (c # s) = (startswith (c # s) k \<or> str_contains k s)"

text \<open>\<open>str(n)\<close> for a Python \<open>int\<close>: decimal digits, with a sign when negative.\<close>

fun digits :: "nat \<Rightarrow> pystr" where
  "digits n = (if n < 10 then [48 + n] else digits (n div 10) @ [48 + n mod 10])"

declare digits.simps [simp del]

definition str_int :: "int \<Rightarrow> pystr" where
  "str_int i = (if i < 0 then 45 # digits (nat (- i)) else digits (nat i))"

text \<open>
  The value \<open>json.loads\<close> returns: \<open>None\<close>, \<open>bool\<close>, \<open>int\<close>, \<open>float\<close> (its IEEE 754
  bits), \<open>str\<close>, \<open>list\<close>, or \<open>dict\<close> with \<open>str\<close> keys in insertion order. The keys
  of a dict are distinct; a lookup reads the first binding of the key.
\<close>

datatype json =
    JNull
  | JBool bool
  | JInt int
  | JFloat "64 word"
  | JStr pystr
  | JList "json list"
  | JDict "(pystr \<times> json) list"

section \<open>The local responder\<close>

text \<open>
  \<open>time.strftime('%H:%M')\<close> formats the local clock reading: hour and minute, each
  zero-padded to two digits.
\<close>

record struct_time =
  tm_hour :: nat
  tm_min :: nat

definition pad2 :: "nat \<Rightarrow> pystr" where
  "pad2 n = [48 + n div 10, 48 + n mod 10]"

definition strftime_HM :: "struct_time \<Rightarrow> pystr" where
  "strftime_HM t = pad2 (tm_hour t) @ [0x3A] @ pad2 (tm_min t)"

definition kw_hello :: pystr where
  "kw_hello = [0xC548, 0xB155]"

definition kw_name :: pystr where
  "kw_name = [0xC774, 0xB984]"

definition kw_weather :: pystr where
  "kw_weather = [0xB0A0, 0xC528]"

definition kw_time :: pystr where
  "kw_time = [0xC2DC, 0xAC04]"

definition reply_hello :: pystr where
  "reply_hello = [0xC548, 0xB155, 0xD558, 0xC138, 0xC694, 0x21, 0x20, 0xBB34, 0xC5C7,
     0xC744, 0x20, 0xB3C4, 0xC640, 0xB4DC, 0xB9B4, 0xAE4C, 0xC694, 0x3F]"

definition reply_name :: pystr where
  "reply_name = [0xC800, 0xB294, 0x20, 0x41, 0x49, 0x20, 0xCC57, 0xBD07, 0xC785, 0xB2C8,
     0xB2E4, 0x2E]"

definition reply_weather :: pystr where
  "reply_weather = [0xC8C4, 0xC1A1, 0xD558, 0xC9C0, 0xB9CC, 0x20, 0xC2E4, 0xC2DC, 0xAC04,
     0x20, 0xB0A0, 0xC528, 0x20, 0xC815, 0xBCF4, 0xB294, 0x20, 0xC81C, 0xACF5, 0xD560, 0x20,
     0xC218, 0x20, 0xC5C6, 0xC2B5, 0xB2C8, 0xB2E4, 0x2E]"

definition reply_time :: "struct_time \<Rightarrow> pystr" where
  "reply_time now = [0xD604, 0xC7AC, 0x20, 0xC2DC, 0xAC04, 0xC740, 0x20, 0xB300, 0xB7B5, 0x20]
     @ strftime_HM now @ [0x20, 0xC785, 0xB2C8, 0xB2E4, 0x2E]"

definition reply_generic :: pystr where
  "reply_generic = [0xD765, 0xBBF8, 0xB85C, 0xC6B4, 0x20, 0xC9C8, 0xBB38, 0xC774, 0xB124,
     0xC694, 0x21, 0x20, 0x41, 0x57, 0x53, 0x20, 0x42, 0x65, 0x64, 0x72, 0x6F, 0x63, 0x6B,
     0xC774, 0x20, 0xC5F0, 0xACB0, 0xB418, 0xBA74, 0x20, 0xB354, 0x20, 0xC790, 0xC138, 0xD55C,
     0x20, 0xB2F5, 0xBCC0, 0xC744, 0x20, 0xB4DC, 0xB9B4, 0x20, 0xC218, 0x20, 0xC788, 0xC744,
     0x20, 0xAC83, 0xC785, 0xB2C8, 0xB2E4, 0x2E]"

text \<open>
  The dict literal \<open>responses\<close> is built on every call, its items in insertion order; the
  fourth value is an f-string that reads the clock while the dict is built.
\<close>

definition responses :: "struct_time \<Rightarrow> (pystr \<times> pystr) list" where
  "responses now =
     [(kw_hello, reply_hello),
      (kw_name, reply_name),
      (kw_weather, reply_weather),
      (kw_time, reply_time now)]"

text \<open>The \<open>for keyword, response in responses.items()\<close> loop and the return after it.\<close>

fun respond_loop :: "(pystr \<times> pystr) list \<Rightarrow> pystr \<Rightarrow> pystr" where
  "respond_loop [] user_input = reply_generic"
| "respond_loop ((keyword, response) # rest) user_input =
     (if str_contains keyword user_input then response else respond_loop rest user_input)"

definition local_chatbot_response :: "struct_time \<Rightarrow> pystr \<Rightarrow> pystr" where
  "local_chatbot_response now user_input = respond_loop (responses now) user_input"

section \<open>The retrying invoker\<close>

subsection \<open>Exceptions and the operators of the response parser\<close>

text \<open>
  An exception instance, as the two handlers of \<open>call_bedrock_api\<close> see it: whether it is
  a \<open>client.exceptions.ThrottlingException\<close>, the text \<open>str(e)\<close>, and the text that
  \<open>type(e)\<close> formats to in an f-string. Only subclasses of \<open>Exception\<close> are modelled.
\<close>

datatype exn =
    ThrottlingException (exn_str: pystr)
  | Exception (exn_str: pystr) (exn_type: pystr)

text \<open>
  The exceptions the interpreter itself raises inside the parser. The message texts are
  those of CPython 3.11; the source does not fix them, and no statement below depends on
  them. \<open>str\<close> of a \<open>KeyError\<close> is the \<open>repr\<close> of the key, written here for keys
  without quotes or escapes.
\<close>

definition TypeError :: "pystr \<Rightarrow> exn" where
  "TypeError msg = Exception msg (ascii ''<class '' @ [0x27] @ ascii ''TypeError'' @ [0x27] @ ascii ''>'')"

definition KeyError :: "pystr \<Rightarrow> exn" where
  "KeyError key = Exception ([0x27] @ key @ [0x27])
     (ascii ''<class '' @ [0x27] @ ascii ''KeyError'' @ [0x27] @ ascii ''>'')"

fun type_name :: "json \<Rightarrow> pystr" where
  "type_name JNull = ascii ''NoneType''"
| "type_name (JBool b) = ascii ''bool''"
| "type_name (JInt i) = ascii ''int''"
| "type_name (JFloat f) = ascii ''float''"
| "type_name (JStr s) = ascii ''str''"
| "type_name (JList xs) = ascii ''list''"
| "type_name (JDict kvs) = ascii ''dict''"

text \<open>
  \<open>key in x\<close> for a \<open>str\<close> key: key membership in a dict, element equality in a list,
  substring search in a string, \<open>TypeError\<close> on anything else.
\<close>

fun py_in :: "pystr \<Rightarrow> json \<Rightarrow> exn + bool" where
  "py_in key (JDict kvs) = Inr (key \<in> set (map fst kvs))"
| "py_in key (JList xs) = Inr (JStr key \<in> set xs)"
| "py_in key (JStr s) = Inr (str_contains key s)"
| "py_in key x =
     Inl (TypeError (ascii ''argument of type '' @ [0x27] @ type_name x @ [0x27]
                     @ ascii '' is not iterable''))"

text \<open>\<open>x[key]\<close> for a \<open>str\<close> key.\<close>

fun py_getitem :: "json \<Rightarrow> pystr \<Rightarrow> exn + json" where
  "py_getitem (JDict kvs) key =
     (case map_of kvs key of Some v \<Rightarrow> Inr v | None \<Rightarrow> Inl (KeyError key))"
| "py_getitem (JList xs) key =
     Inl (TypeError (ascii ''list indices must be integers or slices, not str''))"
| "py_getitem (JStr s) key =
     Inl (TypeError (ascii ''string indices must be integers, not '' @ [0x27] @ ascii ''str''
                     @ [0x27]))"
| "py_getitem x key =
     Inl (TypeError ([0x27] @ type_name x @ [0x27] @ ascii '' object is not subscriptable''))"

definition no_text_msg :: pystr where
  "no_text_msg = [0xC751, 0xB2F5, 0xC5D0, 0xC11C, 0x20, 0xD14D, 0xC2A4, 0xD2B8, 0xB97C, 0x20,
     0xCC3E, 0xC744, 0x20, 0xC218, 0x20, 0xC5C6, 0xC2B5, 0xB2C8, 0xB2E4, 0x2E]"

text \<open>
  Lines 62 to 67: the two \<open>if\<close>s and the fallback return. \<open>isinstance(c, list) and
  len(c) > 0\<close> followed by \<open>c[0]\<close> is the pattern \<open>JList (first_content # rest)\<close>;
  \<open>isinstance(first_content, dict) and 'text' in first_content\<close> is a \<open>JDict\<close> with that
  key. The value under \<open>'text'\<close> is returned as it is, whatever its type.
\<close>

definition extract_text :: "json \<Rightarrow> exn + json" where
  "extract_text response_body =
     (case py_in (ascii ''content'') response_body of
        Inl e \<Rightarrow> Inl e
      | Inr False \<Rightarrow> Inr (JStr no_text_msg)
      | Inr True \<Rightarrow>
          (case py_getitem response_body (ascii ''content'') of
             Inl e \<Rightarrow> Inl e
           | Inr (JList (first_content # rest)) \<Rightarrow>
               (case first_content of
                  JDict kvs \<Rightarrow>
                    (if ascii ''text'' \<in> set (map fst kvs)
                     then py_getitem first_content (ascii ''text'')
                     else Inr (JStr no_text_msg))
                | _ \<Rightarrow> Inr (JStr no_text_msg))
           | Inr _ \<Rightarrow> Inr (JStr no_text_msg)))"

subsection \<open>The world: conversation, service, log\<close>

record message =
  role :: pystr
  content :: json

record request_body =
  anthropic_version :: pystr
  max_tokens :: int
  messages :: "message list"

text \<open>
  The keyword arguments of \<open>invoke_model\<close>. \<open>body\<close> is \<open>json.dumps(request_body)\<close>; the
  model keeps the structure that is serialised.
\<close>

record invoke_args =
  modelId :: pystr
  body :: request_body
  contentType :: pystr

text \<open>
  A client handle answers the \<open>n\<close>-th \<open>invoke_model\<close> call of the process: the result of
  lines 49 to 56 (\<open>invoke_model\<close>, \<open>response['body'].read()\<close>, \<open>json.loads\<close>) is an
  exception or the parsed body.
\<close>

type_synonym client = "nat \<Rightarrow> invoke_args \<Rightarrow> exn + json"

text \<open>The argument of \<open>time.sleep\<close>: an \<open>int\<close>, or a \<open>float\<close> given by its IEEE 754 bits.\<close>

datatype pynum = PyInt int | PyFloat "64 word"

datatype event =
    InvokeModel invoke_args
  | Sleep pynum
  | StWarning pystr
  | StError pystr
  | Boto3Client pystr pystr pystr pystr
  | ChatMessage pystr
  | Markdown pystr
  | Spinner pystr
  | Empty
  | PlaceholderMarkdown json

text \<open>
  \<open>session_messages\<close> is \<open>st.session_state.messages\<close>; \<open>invocations\<close> counts the
  \<open>invoke_model\<close> calls made so far; \<open>resource_cache\<close> is the entry
  \<open>st.cache_resource\<close> keeps for \<open>init_bedrock_client\<close> (the returned value and the
  Streamlit elements to replay), absent before the first completed call; \<open>log\<close> is every
  effect in order.
\<close>

record world =
  session_messages :: "message list"
  invocations :: nat
  resource_cache :: "(client option \<times> event list) option"
  log :: "event list"

definition emit :: "event list \<Rightarrow> world \<Rightarrow> world" where
  "emit evs w = w\<lparr>log := log w @ evs\<rparr>"

definition invoke_model :: "client \<Rightarrow> invoke_args \<Rightarrow> world \<Rightarrow> (exn + json) \<times> world" where
  "invoke_model client args w =
     (client (invocations w) args,
      w\<lparr>invocations := Suc (invocations w), log := log w @ [InvokeModel args]\<rparr>)"

subsection \<open>\<open>call_bedrock_api\<close>\<close>

definition max_retries :: nat where
  "max_retries = 5"

definition base_delay :: int where
  "base_delay = 1"

definition model_id :: pystr where
  "model_id = ascii ''anthropic.claude-3-5-sonnet-20240620-v1:0''"

definition build_request :: "message list \<Rightarrow> invoke_args" where
  "build_request msgs =
     \<lparr>modelId = model_id,
      body = \<lparr>anthropic_version = ascii ''bedrock-2023-05-31'', max_tokens = 1000,
              messages = msgs\<rparr>,
      contentType = ascii ''application/json''\<rparr>"

definition delay :: "nat \<Rightarrow> int" where
  "delay retry_count = base_delay * 2 ^ retry_count"

definition warning_msg :: "nat \<Rightarrow> pystr" where
  "warning_msg retry_count =
     [0xC694, 0xCCAD, 0xC774, 0x20, 0xB108, 0xBB34, 0x20, 0xB9CE, 0xC2B5, 0xB2C8, 0xB2E4, 0x2E,
      0x20]
     @ str_int (delay retry_count)
     @ [0xCD08, 0x20, 0xD6C4, 0x20, 0xC7AC, 0xC2DC, 0xB3C4, 0xD569, 0xB2C8, 0xB2E4, 0x2E]"

definition error_msg :: "pystr \<Rightarrow> pystr \<Rightarrow> pystr" where
  "error_msg description category =
     [0xC624, 0xB958, 0xAC00, 0x20, 0xBC1C, 0xC0DD, 0xD588, 0xC2B5, 0xB2C8, 0xB2E4, 0x3A, 0x20]
     @ description
     @ [0xA, 0xC751, 0xB2F5, 0x20, 0xD0C0, 0xC785, 0x3A, 0x20]
     @ category"

definition max_retries_msg :: pystr where
  "max_retries_msg = [0xCD5C, 0xB300, 0x20, 0xC7AC, 0xC2DC, 0xB3C4, 0x20, 0xD69F, 0xC218,
     0xC5D0, 0x20, 0xB3C4, 0xB2EC, 0xD588, 0xC2B5, 0xB2C8, 0xB2E4, 0x2E, 0x20, 0xC7A0, 0xC2DC,
     0x20, 0xD6C4, 0x20, 0xB2E4, 0xC2DC, 0x20, 0xC2DC, 0xB3C4, 0xD574, 0x20, 0xC8FC, 0xC138,
     0xC694, 0x2E]"

text \<open>The \<open>try\<close> block of one iteration: the service call, then the parser.\<close>

definition try_block :: "client \<Rightarrow> message list \<Rightarrow> world \<Rightarrow> (exn + json) \<times> world" where
  "try_block client msgs w =
     (case invoke_model client (build_request msgs) w of
        (Inl e, w1) \<Rightarrow> (Inl e, w1)
      | (Inr response_body, w1) \<Rightarrow> (extract_text response_body, w1))"

text \<open>
  The \<open>for retry_count in range(max_retries)\<close> loop over the remaining indices, with its
  two handlers, and the return after the loop.
\<close>

fun retry_loop :: "client \<Rightarrow> message list \<Rightarrow> nat list \<Rightarrow> world \<Rightarrow> json \<times> world" where
  "retry_loop client msgs [] w = (JStr max_retries_msg, w)"
| "retry_loop client msgs (retry_count # rest) w =
     (case try_block client msgs w of
        (Inr text, w1) \<Rightarrow> (text, w1)
      | (Inl (ThrottlingException m), w1) \<Rightarrow>
          retry_loop client msgs rest
            (emit [StWarning (warning_msg retry_count), Sleep (PyInt (delay retry_count))] w1)
      | (Inl (Exception description category), w1) \<Rightarrow>
          (JStr (error_msg description category),
           emit [StError (error_msg description category)] w1))"

definition call_bedrock_api :: "client \<Rightarrow> message list \<Rightarrow> world \<Rightarrow> json \<times> world" where
  "call_bedrock_api client msgs w = retry_loop client msgs [0..<max_retries] w"

section \<open>The client initializer\<close>

text \<open>
  \<open>st.secrets[key]\<close> yields the configured text or raises; \<open>boto3.client\<close>, given the
  service name, region, key id and secret key, yields a handle or raises. Both are
  collaborators outside the file and are parameters here.
\<close>

type_synonym secrets = "pystr \<Rightarrow> exn + pystr"

type_synonym boto3 = "pystr \<Rightarrow> pystr \<Rightarrow> pystr \<Rightarrow> pystr \<Rightarrow> exn + client"

definition init_failed_msg :: pystr where
  "init_failed_msg = [0x41, 0x57, 0x53, 0x20, 0x42, 0x65, 0x64, 0x72, 0x6F, 0x63, 0x6B, 0x20,
     0xD074, 0xB77C, 0xC774, 0xC5B8, 0xD2B8, 0x20, 0xCD08, 0xAE30, 0xD654, 0x20, 0xC2E4, 0xD328,
     0x3A, 0x20]"

text \<open>
  The \<open>try\<close> block: the three keyword arguments are evaluated left to right, then the
  constructor runs. The result comes with the effects performed.
\<close>

definition init_try :: "secrets \<Rightarrow> boto3 \<Rightarrow> (exn + client) \<times> event list" where
  "init_try secrets boto3 =
     (case secrets (ascii ''AWS_DEFAULT_REGION'') of
        Inl e \<Rightarrow> (Inl e, [])
      | Inr region_name \<Rightarrow>
          (case secrets (ascii ''AWS_ACCESS_KEY_ID'') of
             Inl e \<Rightarrow> (Inl e, [])
           | Inr aws_access_key_id \<Rightarrow>
               (case secrets (ascii ''AWS_SECRET_ACCESS_KEY'') of
                  Inl e \<Rightarrow> (Inl e, [])
                | Inr aws_secret_access_key \<Rightarrow>
                    (boto3 (ascii ''bedrock-runtime'') region_name aws_access_key_id
                       aws_secret_access_key,
                     [Boto3Client (ascii ''bedrock-runtime'') region_name aws_access_key_id
                        aws_secret_access_key]))))"

text \<open>
  The undecorated function body: \<open>return client\<close>, or the \<open>except Exception\<close> handler
  with \<open>st.error\<close> and \<open>return None\<close>. \<open>Inl\<close> would be an exception leaving the
  function.
\<close>

definition init_body :: "secrets \<Rightarrow> boto3 \<Rightarrow> (exn + client option) \<times> event list" where
  "init_body secrets boto3 =
     (case init_try secrets boto3 of
        (Inr client, evs) \<Rightarrow> (Inr (Some client), evs)
      | (Inl e, evs) \<Rightarrow> (Inr None, evs @ [StError (init_failed_msg @ exn_str e)]))"

text \<open>
  \<open>@st.cache_resource\<close> on a function without arguments: a call that finds an entry
  returns the stored value and replays the stored Streamlit elements without running the
  function; a call that finds none runs the function and, when it returns, stores the
  returned value (whatever it is, \<open>None\<close> included) with the elements it displayed. An
  exception leaving the function is passed on and nothing is stored.
\<close>

fun is_element :: "event \<Rightarrow> bool" where
  "is_element (StWarning m) = True"
| "is_element (StError m) = True"
| "is_element (Markdown m) = True"
| "is_element ev = False"

definition cache_resource ::
    "(exn + client option) \<times> event list \<Rightarrow> world \<Rightarrow> (exn + client option) \<times> world" where
  "cache_resource run w =
     (case resource_cache w of
        Some (cached, elements) \<Rightarrow> (Inr cached, emit elements w)
      | None \<Rightarrow>
          (case run of
             (Inr v, evs) \<Rightarrow>
               (Inr v, (emit evs w)\<lparr>resource_cache := Some (v, filter is_element evs)\<rparr>)
           | (Inl e, evs) \<Rightarrow> (Inl e, emit evs w)))"

definition init_bedrock_client ::
    "secrets \<Rightarrow> boto3 \<Rightarrow> world \<Rightarrow> (exn + client option) \<times> world" where
  "init_bedrock_client secrets boto3 w = cache_resource (init_body secrets boto3) w"

section \<open>One prompt in \<open>main\<close>\<close>

definition role_user :: pystr where
  "role_user = ascii ''user''"

definition role_assistant :: pystr where
  "role_assistant = ascii ''assistant''"

definition connection_failed_msg :: pystr where
  "connection_failed_msg = [0x41, 0x57, 0x53, 0x20, 0x42, 0x65, 0x64, 0x72, 0x6F, 0x63, 0x6B,
     0x20, 0xC5F0, 0xACB0, 0xC5D0, 0x20, 0xC2E4, 0xD328, 0xD588, 0xC2B5, 0xB2C8, 0xB2E4, 0x2E,
     0x20, 0xB85C, 0xCEEC, 0x20, 0xBAA8, 0xB4DC, 0xB85C, 0x20, 0xC804, 0xD658, 0xD569, 0xB2C8,
     0xB2E4, 0x2E]"

definition spinner_bedrock :: pystr where
  "spinner_bedrock = [0x41, 0x49, 0xAC00, 0x20, 0xC0DD, 0xAC01, 0xC911, 0xC785, 0xB2C8, 0xB2E4,
     0x2E, 0x2E, 0x2E]"

definition spinner_local :: pystr where
  "spinner_local = [0xB85C, 0xCEEC, 0x20, 0x41, 0x49, 0xAC00, 0x20, 0xC0DD, 0xAC01, 0xC911,
     0xC785, 0xB2C8, 0xB2E4, 0x2E, 0x2E, 0x2E]"

definition append_message :: "message \<Rightarrow> world \<Rightarrow> world" where
  "append_message m w = w\<lparr>session_messages := session_messages w @ [m]\<rparr>"

text \<open>
  Lines 132 to 138: the user message is appended and shown, and the assistant's
  placeholder is opened.
\<close>

definition begin_turn :: "pystr \<Rightarrow> world \<Rightarrow> world" where
  "begin_turn prompt w =
     emit [ChatMessage role_user, Markdown prompt, ChatMessage role_assistant, Empty]
       (append_message \<lparr>role = role_user, content = JStr prompt\<rparr> w)"

text \<open>
  Lines 140 to 153: how \<open>full_response\<close> is obtained. \<open>now\<close> is the clock reading at
  the call of \<open>local_chatbot_response\<close>; \<open>call_bedrock_api\<close> receives the session's
  message list itself.
\<close>

definition generate_response ::
    "secrets \<Rightarrow> boto3 \<Rightarrow> struct_time \<Rightarrow> bool \<Rightarrow> pystr \<Rightarrow> world \<Rightarrow> (exn + json) \<times> world" where
  "generate_response secrets boto3 now use_bedrock prompt w =
     (if use_bedrock then
        (case init_bedrock_client secrets boto3 w of
           (Inl e, w1) \<Rightarrow> (Inl e, w1)
         | (Inr (Some bedrock_client), w1) \<Rightarrow>
             (case call_bedrock_api bedrock_client (session_messages w1)
                     (emit [Spinner spinner_bedrock] w1) of
                (full_response, w2) \<Rightarrow> (Inr full_response, w2))
         | (Inr None, w1) \<Rightarrow>
             (Inr (JStr (connection_failed_msg @ [0xA, 0xA]
                         @ local_chatbot_response now prompt)), w1))
      else
        (Inr (JStr (local_chatbot_response now prompt)),
         emit [Spinner spinner_local, Sleep (PyInt 1)] w))"

text \<open>
  Lines 156 to 160: \<open>for char in full_response\<close>. A \<open>str\<close> yields its characters, a
  list its elements, a dict its keys; anything else is not iterable. \<open>placeholder_text +=
  char\<close> needs \<open>char\<close> to be a \<open>str\<close>. The sleep argument is the float \<open>0.01\<close>.
\<close>

fun py_iter :: "json \<Rightarrow> exn + json list" where
  "py_iter (JStr s) = Inr (map (\<lambda>c. JStr [c]) s)"
| "py_iter (JList xs) = Inr xs"
| "py_iter (JDict kvs) = Inr (map (\<lambda>kv. JStr (fst kv)) kvs)"
| "py_iter x =
     Inl (TypeError ([0x27] @ type_name x @ [0x27] @ ascii '' object is not iterable''))"

fun typing_loop :: "json list \<Rightarrow> pystr \<Rightarrow> world \<Rightarrow> exn option \<times> world" where
  "typing_loop [] placeholder_text w = (None, w)"
| "typing_loop (JStr char # rest) placeholder_text w =
     typing_loop rest (placeholder_text @ char)
       (emit [PlaceholderMarkdown (JStr (placeholder_text @ char @ [0x258C])),
              Sleep (PyFloat 0x3F847AE147AE147B)] w)"
| "typing_loop (x # rest) placeholder_text w =
     (Some (TypeError (ascii ''can only concatenate str (not '' @ [0x22] @ type_name x
                       @ [0x22] @ ascii '') to str'')), w)"

definition typing_effect :: "json \<Rightarrow> world \<Rightarrow> exn option \<times> world" where
  "typing_effect full_response w =
     (case py_iter full_response of
        Inl e \<Rightarrow> (Some e, w)
      | Inr chars \<Rightarrow> typing_loop chars [] w)"

text \<open>
  The body of \<open>if prompt := st.chat_input(...)\<close>, lines 132 to 164. An exception is not
  caught in \<open>main\<close>: it ends the run with the world as it is at that point.
\<close>

definition main_on_prompt ::
    "secrets \<Rightarrow> boto3 \<Rightarrow> struct_time \<Rightarrow> bool \<Rightarrow> pystr \<Rightarrow> world \<Rightarrow> exn option \<times> world" where
  "main_on_prompt secrets boto3 now use_bedrock prompt w =
     (case generate_response secrets boto3 now use_bedrock prompt (begin_turn prompt w) of
        (Inl e, w1) \<Rightarrow> (Some e, w1)
      | (Inr full_response, w1) \<Rightarrow>
          (case typing_effect full_response w1 of
             (Some e, w2) \<Rightarrow> (Some e, w2)
           | (None, w2) \<Rightarrow>
               (None,
                append_message \<lparr>role = role_assistant, content = full_response\<rparr>
                  (emit [PlaceholderMarkdown full_response] w2))))"

section \<open>Observations and fixtures\<close>

text \<open>What one throttled attempt adds to the log.\<close>

definition throttled_events :: "message list \<Rightarrow> nat \<Rightarrow> event list" where
  "throttled_events msgs retry_count =
     [InvokeModel (build_request msgs), StWarning (warning_msg retry_count),
      Sleep (PyInt (delay retry_count))]"

text \<open>The service raises a throttling error on its \<open>n\<close>-th call.\<close>

definition throttled_at :: "client \<Rightarrow> message list \<Rightarrow> nat \<Rightarrow> bool" where
  "throttled_at client msgs n =
     (case client n (build_request msgs) of Inl (ThrottlingException m) \<Rightarrow> True | _ \<Rightarrow> False)"

text \<open>
  Read from a stretch of the log: the arguments of the sleeps in order, the number of
  service calls, the whole seconds slept (the \<open>int\<close> arguments), and the number of
  handle constructions.
\<close>

fun sleep_args :: "event list \<Rightarrow> pynum list" where
  "sleep_args [] = []"
| "sleep_args (Sleep d # evs) = d # sleep_args evs"
| "sleep_args (ev # evs) = sleep_args evs"

fun invoke_count :: "event list \<Rightarrow> nat" where
  "invoke_count [] = 0"
| "invoke_count (InvokeModel a # evs) = Suc (invoke_count evs)"
| "invoke_count (ev # evs) = invoke_count evs"

fun seconds_slept :: "event list \<Rightarrow> int" where
  "seconds_slept [] = 0"
| "seconds_slept (Sleep (PyInt n) # evs) = n + seconds_slept evs"
| "seconds_slept (ev # evs) = seconds_slept evs"

fun construct_count :: "event list \<Rightarrow> nat" where
  "construct_count [] = 0"
| "construct_count (Boto3Client s r k x # evs) = Suc (construct_count evs)"
| "construct_count (ev # evs) = construct_count evs"

definition events_since :: "world \<Rightarrow> world \<Rightarrow> event list" where
  "events_since w w' = drop (length (log w)) (log w')"

definition after_throttles :: "message list \<Rightarrow> nat \<Rightarrow> world \<Rightarrow> world" where
  "after_throttles msgs k w =
     w\<lparr>invocations := invocations w + k,
       log := log w @ concat (map (throttled_events msgs) [0..<k])\<rparr>"

text \<open>An element of a content sequence that is an object with a \<open>text\<close> field.\<close>

fun carries_text :: "json \<Rightarrow> bool" where
  "carries_text (JDict kvs) = (ascii ''text'' \<in> fst ` set kvs)"
| "carries_text x = False"

text \<open>
  Case mapping of a string, character by character (one character may map to several).
  Hangul syllables, U+AC00 to U+D7A3, have no case. A keyword occurs case-insensitively
  when it occurs after both strings are mapped.
\<close>

definition hangul :: "nat \<Rightarrow> bool" where
  "hangul c = (0xAC00 \<le> c \<and> c \<le> 0xD7A3)"

definition case_map :: "(nat \<Rightarrow> pystr) \<Rightarrow> pystr \<Rightarrow> pystr" where
  "case_map f s = concat (map f s)"

definition ci_occurs :: "(nat \<Rightarrow> pystr) \<Rightarrow> pystr \<Rightarrow> pystr \<Rightarrow> bool" where
  "ci_occurs f k s = sublist (case_map f k) (case_map f s)"

definition ascii_lower :: "nat \<Rightarrow> pystr" where
  "ascii_lower c = (if 0x41 \<le> c \<and> c \<le> 0x5A then [c + 0x20] else [c])"

text \<open>A simulated service: throttles its first \<open>k\<close> calls, then answers \<open>outcome\<close>.\<close>

definition scripted :: "nat \<Rightarrow> exn + json \<Rightarrow> client" where
  "scripted k outcome n args = (if n < k then Inl (ThrottlingException []) else outcome)"

definition example_world :: world where
  "example_world = \<lparr>session_messages = [], invocations = 0, resource_cache = None, log = []\<rparr>"

definition example_msgs :: "message list" where
  "example_msgs = [\<lparr>role = role_user, content = JStr (ascii ''hi'')\<rparr>]"

definition hello_body :: json where
  "hello_body =
     JDict [(ascii ''content'',
             JList [JDict [(ascii ''type'', JStr (ascii ''text'')),
                           (ascii ''text'', JStr (ascii ''hello''))]])]"

definition weather_question :: pystr where
  "weather_question = [0xC624, 0xB298, 0x20, 0xB0A0, 0xC528, 0x20, 0xC5B4, 0xB54C]"

definition no_secrets :: secrets where
  "no_secrets key = Inl (KeyError key)"

definition some_secrets :: secrets where
  "some_secrets key = Inr (ascii ''x'')"

definition some_boto3 :: boto3 where
  "some_boto3 service region key_id secret = Inr (scripted 0 (Inr hello_body))"

section \<open>Properties of the retry loop\<close>

lemma range_max_retries: "[0..<max_retries] = [0, 1, 2, 3, 4]"
  unfolding max_retries_def by code_simp

lemma retry_loop_throttled:
  assumes "\<forall>i < length rcs. throttled_at client msgs (invocations w + i)"
  shows "retry_loop client msgs (rcs @ rest) w =
         retry_loop client msgs rest
           (w\<lparr>invocations := invocations w + length rcs,
              log := log w @ concat (map (throttled_events msgs) rcs)\<rparr>)"
  using assms
proof (induction rcs arbitrary: w)
  case Nil
  then show ?case by simp
next
  case (Cons rc rcs)
  from Cons.prems have "throttled_at client msgs (invocations w)" by force
  then obtain m where m: "client (invocations w) (build_request msgs) = Inl (ThrottlingException m)"
    by (auto simp: throttled_at_def split: sum.splits exn.splits)
  define w1 where "w1 = w\<lparr>invocations := Suc (invocations w),
     log := log w @ throttled_events msgs rc\<rparr>"
  have step: "retry_loop client msgs ((rc # rcs) @ rest) w = retry_loop client msgs (rcs @ rest) w1"
    using m by (simp add: try_block_def invoke_model_def emit_def w1_def throttled_events_def)
  have "\<forall>i < length rcs. throttled_at client msgs (invocations w1 + i)"
    using Cons.prems by (auto simp: w1_def)
  from Cons.IH[OF this] step show ?case by (simp add: w1_def)
qed

lemma call_after_throttles:
  assumes "k < max_retries" and "\<forall>i < k. throttled_at client msgs (invocations w + i)"
  shows "call_bedrock_api client msgs w =
         retry_loop client msgs (k # [Suc k..<max_retries]) (after_throttles msgs k w)"
proof -
  have "[0..<max_retries] = [0..<k] @ [k..<max_retries]"
    using assms(1) upt_add_eq_append[of 0 k "max_retries - k"] by simp
  moreover have "[k..<max_retries] = k # [Suc k..<max_retries]"
    using assms(1) by (rule upt_conv_Cons)
  moreover have "\<forall>i < length [0..<k]. throttled_at client msgs (invocations w + i)"
    using assms(2) by simp
  ultimately show ?thesis
    using retry_loop_throttled[of "[0..<k]" client msgs w "k # [Suc k..<max_retries]"]
    by (simp add: call_bedrock_api_def after_throttles_def)
qed

lemma call_all_throttled:
  assumes "\<forall>i < max_retries. throttled_at client msgs (invocations w + i)"
  shows "call_bedrock_api client msgs w =
         (JStr max_retries_msg, after_throttles msgs max_retries w)"
  using retry_loop_throttled[of "[0..<max_retries]" client msgs w "[]"] assms
  by (simp add: call_bedrock_api_def after_throttles_def)

lemma sleep_args_append: "sleep_args (xs @ ys) = sleep_args xs @ sleep_args ys"
  by (induction xs rule: sleep_args.induct) auto

lemma invoke_count_append: "invoke_count (xs @ ys) = invoke_count xs + invoke_count ys"
  by (induction xs rule: invoke_count.induct) auto

lemma sleep_args_throttled:
  "sleep_args (concat (map (throttled_events msgs) rcs)) = map (\<lambda>i. PyInt (delay i)) rcs"
  by (induction rcs) (auto simp: throttled_events_def)

lemma invoke_count_throttled:
  "invoke_count (concat (map (throttled_events msgs) rcs)) = length rcs"
  by (induction rcs) (auto simp: throttled_events_def)

lemma upt4: "[0..<4] = [0, 1, 2, 3]"
  by code_simp

lemma startswith_iff: "startswith s k \<longleftrightarrow> (\<exists>post. s = k @ post)"
  by (induction s k rule: startswith.induct) auto

lemma str_contains_iff: "str_contains k s \<longleftrightarrow> (\<exists>pre post. s = pre @ k @ post)"
proof (induction s)
  case Nil
  then show ?case by auto
next
  case (Cons c s)
  show ?case
  proof
    assume "str_contains k (c # s)"
    then consider "startswith (c # s) k" | "str_contains k s" by auto
    then show "\<exists>pre post. c # s = pre @ k @ post"
    proof cases
      case 1
      then obtain post where "c # s = k @ post" by (auto simp: startswith_iff)
      then have "c # s = [] @ k @ post" by simp
      then show ?thesis by blast
    next
      case 2
      then obtain pre post where "s = pre @ k @ post" using Cons.IH by blast
      then have "c # s = (c # pre) @ k @ post" by simp
      then show ?thesis by blast
    qed
  next
    assume "\<exists>pre post. c # s = pre @ k @ post"
    then obtain pre post where e: "c # s = pre @ k @ post" by blast
    show "str_contains k (c # s)"
    proof (cases pre)
      case Nil
      with e have "startswith (c # s) k" by (auto simp: startswith_iff)
      then show ?thesis by simp
    next
      case (Cons p pre')
      with e have "s = pre' @ k @ post" by simp
      then have "str_contains k s" using Cons.IH by blast
      then show ?thesis by simp
    qed
  qed
qed

lemma retry_loop_success:
  assumes "client (invocations w) (build_request msgs) = Inr response_body"
    and "extract_text response_body = Inr text"
  shows "retry_loop client msgs (rc # rest) w =
         (text, w\<lparr>invocations := Suc (invocations w),
                  log := log w @ [InvokeModel (build_request msgs)]\<rparr>)"
  using assms by (simp add: try_block_def invoke_model_def)

lemma retry_loop_failure:
  assumes "client (invocations w) (build_request msgs) = Inl (Exception description category)"
  shows "retry_loop client msgs (rc # rest) w =
         (JStr (error_msg description category),
          w\<lparr>invocations := Suc (invocations w),
            log := log w @ [InvokeModel (build_request msgs),
                            StError (error_msg description category)]\<rparr>)"
  using assms by (simp add: try_block_def invoke_model_def emit_def)

lemma call_success_after_throttles:
  assumes "k < max_retries" and "\<forall>i < k. throttled_at client msgs (invocations w + i)"
    and "client (invocations w + k) (build_request msgs) = Inr response_body"
    and "extract_text response_body = Inr text"
  shows "fst (call_bedrock_api client msgs w) = text"
    and "events_since w (snd (call_bedrock_api client msgs w)) =
         concat (map (throttled_events msgs) [0..<k]) @ [InvokeModel (build_request msgs)]"
proof -
  have inv: "invocations (after_throttles msgs k w) = invocations w + k"
    by (simp add: after_throttles_def)
  have r: "call_bedrock_api client msgs w =
        (text, (after_throttles msgs k w)
           \<lparr>invocations := Suc (invocations (after_throttles msgs k w)),
            log := log (after_throttles msgs k w) @ [InvokeModel (build_request msgs)]\<rparr>)"
    using call_after_throttles[OF assms(1) assms(2)]
      retry_loop_success[of client "after_throttles msgs k w" msgs response_body "text"]
      assms(3,4) inv by simp
  show "fst (call_bedrock_api client msgs w) = text"
    unfolding r by simp
  show "events_since w (snd (call_bedrock_api client msgs w)) =
         concat (map (throttled_events msgs) [0..<k]) @ [InvokeModel (build_request msgs)]"
    unfolding r by (simp add: events_since_def after_throttles_def)
qed

lemma extract_text_first:
  assumes "map_of kvs (ascii ''content'') = Some (JList (JDict first_kvs # rest))"
    and "map_of first_kvs (ascii ''text'') = Some v"
  shows "extract_text (JDict kvs) = Inr v"
proof -
  have c: "ascii ''content'' \<in> fst ` set kvs"
    using assms(1) by (metis domI dom_map_of_conv_image_fst)
  have t: "ascii ''text'' \<in> fst ` set first_kvs"
    using assms(2) by (metis domI dom_map_of_conv_image_fst)
  show ?thesis
    using c t assms by (simp add: extract_text_def)
qed

text \<open>
  Claim C1. When the service throttles the first four attempts (indices 0 to 3) and the
  fifth returns a body whose first content element carries a text, \<open>call_bedrock_api\<close>
  returns that text; what it did is four throttled attempts, each followed by its warning and
  its sleep, then one more service call: the sleeps are 1, 2, 4 and 8 seconds in this order
  and the service is called 5 times.
\<close>

theorem backoff_then_success:
  assumes "\<forall>i < 4. throttled_at client msgs (invocations w + i)"
    and "client (invocations w + 4) (build_request msgs) = Inr (JDict kvs)"
    and "map_of kvs (ascii ''content'') = Some (JList (JDict first_kvs # rest))"
    and "map_of first_kvs (ascii ''text'') = Some success_text"
  shows "fst (call_bedrock_api client msgs w) = success_text \<and>
         events_since w (snd (call_bedrock_api client msgs w)) =
           throttled_events msgs 0 @ throttled_events msgs 1 @ throttled_events msgs 2
           @ throttled_events msgs 3 @ [InvokeModel (build_request msgs)] \<and>
         sleep_args (events_since w (snd (call_bedrock_api client msgs w))) =
           [PyInt 1, PyInt 2, PyInt 4, PyInt 8] \<and>
         invoke_count (events_since w (snd (call_bedrock_api client msgs w))) = 5"
proof -
  have k: "4 < max_retries" by (simp add: max_retries_def)
  note ex = extract_text_first[OF assms(3) assms(4)]
  note r = call_success_after_throttles[OF k assms(1) assms(2) ex]
  show ?thesis
    unfolding r
    by (simp add: upt4 sleep_args_append invoke_count_append throttled_events_def
        delay_def base_delay_def)
qed

theorem backoff_then_success_witness:
  "fst (call_bedrock_api (scripted 4 (Inr hello_body)) example_msgs example_world) =
     JStr (ascii ''hello'') \<and>
   sleep_args (events_since example_world
     (snd (call_bedrock_api (scripted 4 (Inr hello_body)) example_msgs example_world))) =
     [PyInt 1, PyInt 2, PyInt 4, PyInt 8] \<and>
   invoke_count (events_since example_world
     (snd (call_bedrock_api (scripted 4 (Inr hello_body)) example_msgs example_world))) = 5"
proof -
  have h1: "\<forall>i < 4. throttled_at (scripted 4 (Inr hello_body)) example_msgs
              (invocations example_world + i)"
    by (simp add: throttled_at_def scripted_def example_world_def)
  have h2: "scripted 4 (Inr hello_body) (invocations example_world + 4)
              (build_request example_msgs) =
            Inr (JDict [(ascii ''content'',
                   JList [JDict [(ascii ''type'', JStr (ascii ''text'')),
                                 (ascii ''text'', JStr (ascii ''hello''))]])])"
    by (simp add: scripted_def hello_body_def example_world_def)
  have h3: "map_of [(ascii ''content'',
                   JList [JDict [(ascii ''type'', JStr (ascii ''text'')),
                                 (ascii ''text'', JStr (ascii ''hello''))]])]
              (ascii ''content'') =
            Some (JList (JDict [(ascii ''type'', JStr (ascii ''text'')),
                                (ascii ''text'', JStr (ascii ''hello''))] # []))"
    by simp
  have h4: "map_of [(ascii ''type'', JStr (ascii ''text'')),
                    (ascii ''text'', JStr (ascii ''hello''))] (ascii ''text'') =
            Some (JStr (ascii ''hello''))"
    by (simp add: ascii_def)
  from backoff_then_success[OF h1 h2 h3 h4] show ?thesis by blast
qed

text \<open>
  Claim C2. When the service throttles all five attempts, \<open>call_bedrock_api\<close> calls it
  exactly 5 times, sleeps 1, 2, 4, 8 and 16 seconds (31 in total, the sleep of 16 seconds
  being the last thing it does) and returns the fixed message for exhausted retries as an
  ordinary value.
\<close>

theorem all_attempts_throttled:
  assumes "\<forall>i < 5. throttled_at client msgs (invocations w + i)"
  shows "fst (call_bedrock_api client msgs w) = JStr max_retries_msg \<and>
         events_since w (snd (call_bedrock_api client msgs w)) =
           throttled_events msgs 0 @ throttled_events msgs 1 @ throttled_events msgs 2
           @ throttled_events msgs 3 @ throttled_events msgs 4 \<and>
         invoke_count (events_since w (snd (call_bedrock_api client msgs w))) = 5 \<and>
         sleep_args (events_since w (snd (call_bedrock_api client msgs w))) =
           [PyInt 1, PyInt 2, PyInt 4, PyInt 8, PyInt 16] \<and>
         seconds_slept (events_since w (snd (call_bedrock_api client msgs w))) = 31 \<and>
         last (log (snd (call_bedrock_api client msgs w))) = Sleep (PyInt 16)"
proof -
  have a: "\<forall>i < max_retries. throttled_at client msgs (invocations w + i)"
    using assms by (simp add: max_retries_def)
  note r = call_all_throttled[OF a]
  show ?thesis
    unfolding r
    by (simp add: events_since_def range_max_retries throttled_events_def
        after_throttles_def delay_def base_delay_def)
qed

theorem all_attempts_throttled_witness:
  "fst (call_bedrock_api (scripted 5 (Inr hello_body)) example_msgs example_world) =
     JStr max_retries_msg \<and>
   invoke_count (events_since example_world
     (snd (call_bedrock_api (scripted 5 (Inr hello_body)) example_msgs example_world))) = 5 \<and>
   seconds_slept (events_since example_world
     (snd (call_bedrock_api (scripted 5 (Inr hello_body)) example_msgs example_world))) = 31"
proof -
  have h: "\<forall>i < 5. throttled_at (scripted 5 (Inr hello_body)) example_msgs
             (invocations example_world + i)"
    by (simp add: throttled_at_def scripted_def example_world_def)
  from all_attempts_throttled[OF h] show ?thesis by blast
qed

lemma call_failure_after_throttles:
  assumes "k < max_retries" and "\<forall>i < k. throttled_at client msgs (invocations w + i)"
    and "client (invocations w + k) (build_request msgs) = Inl (Exception description category)"
  shows "fst (call_bedrock_api client msgs w) = JStr (error_msg description category)"
    and "events_since w (snd (call_bedrock_api client msgs w)) =
         concat (map (throttled_events msgs) [0..<k])
         @ [InvokeModel (build_request msgs), StError (error_msg description category)]"
    and "invocations (snd (call_bedrock_api client msgs w)) = invocations w + Suc k"
proof -
  have inv: "invocations (after_throttles msgs k w) = invocations w + k"
    by (simp add: after_throttles_def)
  have r: "call_bedrock_api client msgs w =
        (JStr (error_msg description category), (after_throttles msgs k w)
           \<lparr>invocations := Suc (invocations (after_throttles msgs k w)),
            log := log (after_throttles msgs k w)
                   @ [InvokeModel (build_request msgs),
                      StError (error_msg description category)]\<rparr>)"
    using call_after_throttles[OF assms(1) assms(2)]
      retry_loop_failure[of client "after_throttles msgs k w" msgs description category]
      assms(3) inv by simp
  show "fst (call_bedrock_api client msgs w) = JStr (error_msg description category)"
    unfolding r by simp
  show "events_since w (snd (call_bedrock_api client msgs w)) =
         concat (map (throttled_events msgs) [0..<k])
         @ [InvokeModel (build_request msgs), StError (error_msg description category)]"
    unfolding r by (simp add: events_since_def after_throttles_def)
  show "invocations (snd (call_bedrock_api client msgs w)) = invocations w + Suc k"
    unfolding r by (simp add: after_throttles_def)
qed

lemma str_contains_error_msg:
  "str_contains description (error_msg description category)"
  "str_contains category (error_msg description category)"
proof -
  show "str_contains description (error_msg description category)"
    unfolding str_contains_iff error_msg_def by blast
  have "\<exists>pre. error_msg description category = pre @ category @ []"
    unfolding error_msg_def by (metis append.assoc append_Nil2)
  then show "str_contains category (error_msg description category)"
    unfolding str_contains_iff by blast
qed

text \<open>
  Claim C3. When the service raises an error that is not a throttling error on attempt
  \<open>k\<close> (the attempts before it, if any, having been throttled), \<open>call_bedrock_api\<close>
  returns at once a message that contains the error's description and its type: after the
  failing call it only reports the message, it never sleeps or calls the service again. A
  failure on the first attempt gives one service call and no sleep at all.
\<close>

theorem non_throttling_failure:
  assumes "k < 5"
    and "\<forall>i < k. throttled_at client msgs (invocations w + i)"
    and "client (invocations w + k) (build_request msgs) = Inl (Exception description category)"
  shows "fst (call_bedrock_api client msgs w) = JStr (error_msg description category) \<and>
         str_contains description (error_msg description category) \<and>
         str_contains category (error_msg description category) \<and>
         events_since w (snd (call_bedrock_api client msgs w)) =
           concat (map (throttled_events msgs) [0..<k])
           @ [InvokeModel (build_request msgs), StError (error_msg description category)] \<and>
         invoke_count (events_since w (snd (call_bedrock_api client msgs w))) = Suc k \<and>
         invocations (snd (call_bedrock_api client msgs w)) = invocations w + Suc k \<and>
         sleep_args (events_since w (snd (call_bedrock_api client msgs w))) =
           map (\<lambda>i. PyInt (delay i)) [0..<k] \<and>
         (k = 0 \<longrightarrow>
            sleep_args (events_since w (snd (call_bedrock_api client msgs w))) = [] \<and>
            invoke_count (events_since w (snd (call_bedrock_api client msgs w))) = 1)"
proof -
  have k: "k < max_retries" using assms(1) by (simp add: max_retries_def)
  note r = call_failure_after_throttles[OF k assms(2) assms(3)]
  show ?thesis
    unfolding r
    by (simp add: str_contains_error_msg sleep_args_append invoke_count_append
        sleep_args_throttled invoke_count_throttled)
qed

theorem non_throttling_failure_witness:
  "fst (call_bedrock_api (scripted 0 (Inl (Exception (ascii ''denied'') (ascii ''E''))))
          example_msgs example_world) =
     JStr (error_msg (ascii ''denied'') (ascii ''E'')) \<and>
   sleep_args (events_since example_world
     (snd (call_bedrock_api (scripted 0 (Inl (Exception (ascii ''denied'') (ascii ''E''))))
            example_msgs example_world))) = [] \<and>
   invoke_count (events_since example_world
     (snd (call_bedrock_api (scripted 0 (Inl (Exception (ascii ''denied'') (ascii ''E''))))
            example_msgs example_world))) = 1 \<and>
   fst (call_bedrock_api (scripted 2 (Inl (Exception (ascii ''denied'') (ascii ''E''))))
          example_msgs example_world) =
     JStr (error_msg (ascii ''denied'') (ascii ''E'')) \<and>
   sleep_args (events_since example_world
     (snd (call_bedrock_api (scripted 2 (Inl (Exception (ascii ''denied'') (ascii ''E''))))
            example_msgs example_world))) = [PyInt 1, PyInt 2] \<and>
   invoke_count (events_since example_world
     (snd (call_bedrock_api (scripted 2 (Inl (Exception (ascii ''denied'') (ascii ''E''))))
            example_msgs example_world))) = 3"
proof -
  have h1: "(0::nat) < 5" by simp
  have h2: "\<forall>i < 0. throttled_at (scripted 0 (Inl (Exception (ascii ''denied'') (ascii ''E''))))
              example_msgs (invocations example_world + i)"
    by simp
  have h3: "scripted 0 (Inl (Exception (ascii ''denied'') (ascii ''E'')))
              (invocations example_world + 0) (build_request example_msgs) =
            Inl (Exception (ascii ''denied'') (ascii ''E''))"
    by (simp add: scripted_def)
  have g1: "(2::nat) < 5" by simp
  have g2: "\<forall>i < 2. throttled_at (scripted 2 (Inl (Exception (ascii ''denied'') (ascii ''E''))))
              example_msgs (invocations example_world + i)"
    by (simp add: throttled_at_def scripted_def example_world_def)
  have g3: "scripted 2 (Inl (Exception (ascii ''denied'') (ascii ''E'')))
              (invocations example_world + 2) (build_request example_msgs) =
            Inl (Exception (ascii ''denied'') (ascii ''E''))"
    by (simp add: scripted_def)
  have d: "map (\<lambda>i. PyInt (delay i)) [0..<2] = [PyInt 1, PyInt 2]"
    by (simp add: numeral_2_eq_2 delay_def base_delay_def)
  from non_throttling_failure[OF h1 h2 h3] non_throttling_failure[OF g1 g2 g3]
  show ?thesis unfolding d by auto
qed


lemma content_key: "map_of kvs k = Some v \<Longrightarrow> k \<in> fst ` set kvs"
  by (metis domI dom_map_of_conv_image_fst)



lemma extract_text_nonempty_content:
  assumes "map_of kvs (ascii ''content'') = Some (JList (first_content # rest))"
  shows "extract_text (JDict kvs) =
         (case first_content of
            JDict first_kvs \<Rightarrow>
              (case map_of first_kvs (ascii ''text'') of
                 Some v \<Rightarrow> Inr v
               | None \<Rightarrow> Inr (JStr no_text_msg))
          | _ \<Rightarrow> Inr (JStr no_text_msg))"
proof -
  have c: "ascii ''content'' \<in> fst ` set kvs"
    using assms by (rule content_key)
  show ?thesis
  proof (cases first_content)
    case (JDict first_kvs)
    show ?thesis
    proof (cases "map_of first_kvs (ascii ''text'')")
      case None
      then have "ascii ''text'' \<notin> fst ` set first_kvs"
        by (simp add: map_of_eq_None_iff)
      with None c assms JDict show ?thesis by (simp add: extract_text_def)
    next
      case (Some v)
      then have "ascii ''text'' \<in> fst ` set first_kvs" by (rule content_key)
      with Some c assms JDict show ?thesis by (simp add: extract_text_def)
    qed
  qed (use c assms in \<open>simp_all add: extract_text_def\<close>)
qed

lemma extract_text_hello: "extract_text hello_body = Inr (JStr (ascii ''hello''))"
  by (simp add: hello_body_def extract_text_def ascii_def)



text \<open>
  Claim C10. When an attempt succeeds with an object whose content sequence is not empty,
  the value returned is decided by the first element alone: it is what the same body with
  every later element removed would give, and it is the fixed fallback text whenever the
  first element is not an object with a \<open>text\<close> field, whatever the later elements
  carry.
\<close>

theorem only_first_content_element:
  assumes "k < 5"
    and "\<forall>i < k. throttled_at client msgs (invocations w + i)"
    and "client (invocations w + k) (build_request msgs) = Inr (JDict kvs)"
    and "map_of kvs (ascii ''content'') = Some (JList (first_content # rest))"
  shows "(\<not> carries_text first_content \<longrightarrow>
            fst (call_bedrock_api client msgs w) = JStr no_text_msg) \<and>
         Inr (fst (call_bedrock_api client msgs w)) =
           extract_text (JDict [(ascii ''content'', JList [first_content])]) \<and>
         events_since w (snd (call_bedrock_api client msgs w)) =
           concat (map (throttled_events msgs) [0..<k]) @ [InvokeModel (build_request msgs)]"
proof -
  have k: "k < max_retries" using assms(1) by (simp add: max_retries_def)
  define v where "v = (case first_content of
            JDict first_kvs \<Rightarrow>
              (case map_of first_kvs (ascii ''text'') of
                 Some v \<Rightarrow> v
               | None \<Rightarrow> JStr no_text_msg)
          | _ \<Rightarrow> JStr no_text_msg)"
  have ex: "extract_text (JDict kvs) = Inr v"
    unfolding v_def extract_text_nonempty_content[OF assms(4)]
    by (simp split: json.splits option.splits)
  have "map_of [(ascii ''content'', JList [first_content])] (ascii ''content'') =
        Some (JList (first_content # []))"
    by simp
  from extract_text_nonempty_content[OF this]
  have ex1: "extract_text (JDict [(ascii ''content'', JList [first_content])]) = Inr v"
    unfolding v_def by (simp split: json.splits option.splits)
  have nt: "\<not> carries_text first_content \<Longrightarrow> v = JStr no_text_msg"
    unfolding v_def by (cases first_content) (auto dest: content_key split: option.splits)
  note r = call_success_after_throttles[OF k assms(2) assms(3) ex]
  show ?thesis
    unfolding r ex1 using nt by simp
qed

theorem only_first_content_element_witness:
  "fst (call_bedrock_api
         (scripted 0 (Inr (JDict [(ascii ''content'',
            JList [JStr (ascii ''x''), JDict [(ascii ''text'', JStr (ascii ''later''))]])])))
         example_msgs example_world) = JStr no_text_msg"
proof -
  have k0: "(0::nat) < 5" by simp
  have a2: "\<forall>i < 0. throttled_at
         (scripted 0 (Inr (JDict [(ascii ''content'',
            JList [JStr (ascii ''x''), JDict [(ascii ''text'', JStr (ascii ''later''))]])])))
         example_msgs (invocations example_world + i)"
    by simp
  have a3: "scripted 0 (Inr (JDict [(ascii ''content'',
            JList [JStr (ascii ''x''), JDict [(ascii ''text'', JStr (ascii ''later''))]])]))
          (invocations example_world + 0) (build_request example_msgs) =
        Inr (JDict [(ascii ''content'',
            JList [JStr (ascii ''x''), JDict [(ascii ''text'', JStr (ascii ''later''))]])])"
    by (simp add: scripted_def)
  have a4: "map_of [(ascii ''content'',
            JList [JStr (ascii ''x''), JDict [(ascii ''text'', JStr (ascii ''later''))]])]
          (ascii ''content'') =
        Some (JList (JStr (ascii ''x'') # [JDict [(ascii ''text'', JStr (ascii ''later''))]]))"
    by simp
  have a5: "\<not> carries_text (JStr (ascii ''x''))" by simp
  from only_first_content_element[OF k0 a2 a3 a4] a5 show ?thesis by blast
qed

section \<open>Properties of the local responder\<close>

lemma str_contains_sublist: "str_contains k s \<longleftrightarrow> sublist k s"
  unfolding str_contains_iff sublist_def ..

lemma respond_loop_first_match:
  assumes "i < length items"
    and "str_contains (fst (items ! i)) s"
    and "\<forall>j < i. \<not> str_contains (fst (items ! j)) s"
  shows "respond_loop items s = snd (items ! i)"
  using assms
proof (induction items arbitrary: i)
  case Nil
  then show ?case by simp
next
  case (Cons item items)
  obtain keyword response where item: "item = (keyword, response)" by (cases item)
  show ?case
  proof (cases i)
    case 0
    with Cons.prems item show ?thesis by simp
  next
    case (Suc i')
    from Cons.prems(3) Suc have "\<not> str_contains (fst ((item # items) ! 0)) s" by blast
    then have no: "\<not> str_contains keyword s" using item by simp
    have "\<forall>j < i'. \<not> str_contains (fst (items ! j)) s"
      using Cons.prems(3) Suc by force
    with Cons.IH[of i'] Cons.prems(1,2) Suc have "respond_loop items s = snd (items ! i')"
      by simp
    with no item Suc show ?thesis by simp
  qed
qed

lemma respond_loop_no_match:
  assumes "\<forall>i < length items. \<not> str_contains (fst (items ! i)) s"
  shows "respond_loop items s = reply_generic"
  using assms
proof (induction items)
  case Nil
  then show ?case by simp
next
  case (Cons item items)
  obtain keyword response where item: "item = (keyword, response)" by (cases item)
  from Cons.prems have "\<not> str_contains (fst ((item # items) ! 0)) s" by blast
  then have no: "\<not> str_contains keyword s" using item by simp
  have "\<forall>i < length items. \<not> str_contains (fst (items ! i)) s"
    using Cons.prems by force
  with Cons.IH no item show ?case by simp
qed

lemma startswith_case_map:
  assumes fh: "\<forall>c. hangul c \<longrightarrow> f c = [c]"
    and fn: "\<forall>c. \<not> hangul c \<longrightarrow> f c \<noteq> [] \<and> (\<forall>d \<in> set (f c). \<not> hangul d)"
    and k: "\<forall>c \<in> set k. hangul c"
  shows "startswith (case_map f s) k = startswith s k"
  using k
proof (induction s k rule: startswith.induct)
  case (1 s)
  then show ?case by simp
next
  case (2 k ks)
  then show ?case by (simp add: case_map_def)
next
  case (3 c s k ks)
  show ?case
  proof (cases "hangul c")
    case True
    then have "f c = [c]" using fh by simp
    then show ?thesis using 3 by (simp add: case_map_def)
  next
    case False
    with fn obtain d ds where d: "f c = d # ds" "\<not> hangul d"
      by (cases "f c") auto
    from 3 have "hangul k" by simp
    with d False have "d \<noteq> k" "c \<noteq> k" by auto
    then show ?thesis using d by (simp add: case_map_def)
  qed
qed

lemma str_contains_skip:
  assumes "\<forall>d \<in> set xs. \<not> hangul d" "k \<noteq> []" "\<forall>c \<in> set k. hangul c"
  shows "str_contains k (xs @ ys) = str_contains k ys"
  using assms
proof (induction xs)
  case Nil
  then show ?case by simp
next
  case (Cons x xs)
  then obtain k0 ks where k: "k = k0 # ks" by (cases k) auto
  with Cons have "x \<noteq> k0" by auto
  then show ?case using Cons k by simp
qed

lemma str_contains_case_map:
  assumes fh: "\<forall>c. hangul c \<longrightarrow> f c = [c]"
    and fn: "\<forall>c. \<not> hangul c \<longrightarrow> f c \<noteq> [] \<and> (\<forall>d \<in> set (f c). \<not> hangul d)"
    and k: "\<forall>c \<in> set k. hangul c" "k \<noteq> []"
  shows "str_contains k (case_map f s) = str_contains k s"
proof (induction s)
  case Nil
  then show ?case by (simp add: case_map_def)
next
  case (Cons c s)
  show ?case
  proof (cases "hangul c")
    case True
    have "startswith (case_map f (c # s)) k = startswith (c # s) k"
      using startswith_case_map[OF fh fn k(1)] .
    moreover have "case_map f (c # s) = c # case_map f s"
      using fh True by (simp add: case_map_def)
    ultimately show ?thesis using Cons by simp
  next
    case False
    obtain k0 ks where kk: "k = k0 # ks" using k by (cases k) auto
    with k have "hangul k0" by simp
    with False have "c \<noteq> k0" by auto
    have "case_map f (c # s) = f c @ case_map f s" by (simp add: case_map_def)
    then have "str_contains k (case_map f (c # s)) = str_contains k (case_map f s)"
      using str_contains_skip[of "f c" k "case_map f s"] fn False k by simp
    then show ?thesis using Cons \<open>c \<noteq> k0\<close> kk by simp
  qed
qed

lemma case_map_hangul:
  assumes "\<forall>c. hangul c \<longrightarrow> f c = [c]" and "\<forall>c \<in> set k. hangul c"
  shows "case_map f k = k"
  using assms(2)
proof (induction k)
  case Nil
  then show ?case by (simp add: case_map_def)
next
  case (Cons c k)
  then have "f c = [c]" using assms(1) by simp
  with Cons show ?case by (simp add: case_map_def)
qed

lemma ci_occurs_hangul:
  assumes "\<forall>c. hangul c \<longrightarrow> f c = [c]"
    and "\<forall>c. \<not> hangul c \<longrightarrow> f c \<noteq> [] \<and> (\<forall>d \<in> set (f c). \<not> hangul d)"
    and "\<forall>c \<in> set k. hangul c" "k \<noteq> []"
  shows "ci_occurs f k s = str_contains k s"
  unfolding ci_occurs_def case_map_hangul[OF assms(1) assms(3)]
  using str_contains_case_map[OF assms] by (simp add: str_contains_sublist)

lemma keywords_hangul:
  assumes "i < length (responses now)"
  shows "(\<forall>c \<in> set (fst (responses now ! i)). hangul c) \<and> fst (responses now ! i) \<noteq> []"
proof -
  from assms have "i = 0 \<or> i = 1 \<or> i = 2 \<or> i = 3"
    by (auto simp: responses_def)
  then show ?thesis
    by (auto simp: responses_def kw_hello_def kw_name_def kw_weather_def kw_time_def hangul_def)
qed

lemma responses_nth:
  "responses now ! 0 = (kw_hello, reply_hello)"
  "responses now ! 1 = (kw_name, reply_name)"
  "responses now ! 2 = (kw_weather, reply_weather)"
  "responses now ! 3 = (kw_time, reply_time now)"
  "length (responses now) = 4"
  by (simp_all add: responses_def)

lemma weather_reply:
  assumes "str_contains kw_weather s" "\<not> str_contains kw_hello s" "\<not> str_contains kw_name s"
  shows "local_chatbot_response now s = reply_weather"
  using assms by (simp add: local_chatbot_response_def responses_def)

lemma weather_question_reply: "local_chatbot_response now weather_question = reply_weather"
  by (simp add: local_chatbot_response_def responses_def weather_question_def
      kw_hello_def kw_name_def kw_weather_def)

lemma xyz_reply: "local_chatbot_response now (ascii ''xyz'') = reply_generic"
  by (simp add: local_chatbot_response_def responses_def ascii_def
      kw_hello_def kw_name_def kw_weather_def kw_time_def)


text \<open>
  Claim C8, as stated, fails: an input that contains the weather keyword together with an
  earlier keyword of the mapping gets the earlier keyword's reply.
\<close>

theorem weather_keyword_counterexample:
  "sublist kw_weather (kw_hello @ [0x20] @ kw_weather) \<and>
   local_chatbot_response \<lparr>tm_hour = 9, tm_min = 0\<rparr> (kw_hello @ [0x20] @ kw_weather)
     \<noteq> reply_weather"
proof -
  have "str_contains kw_weather (kw_hello @ [0x20] @ kw_weather)"
    by (simp add: kw_hello_def kw_weather_def)
  moreover have "local_chatbot_response \<lparr>tm_hour = 9, tm_min = 0\<rparr>
      (kw_hello @ [0x20] @ kw_weather) = reply_hello"
    by (simp add: local_chatbot_response_def responses_def kw_hello_def)
  moreover have "reply_hello \<noteq> reply_weather"
    by (simp add: reply_hello_def reply_weather_def)
  ultimately show ?thesis by (simp add: str_contains_sublist)
qed

text \<open>
  Claim C8, amended. \<open>local_chatbot_response\<close> returns the reply of the first keyword, in
  the fixed order of the mapping, that occurs anywhere in the input, also when both are
  compared after a case mapping \<open>f\<close> (any mapping that leaves Hangul syllables alone and
  produces none); it returns the generic reply when no keyword occurs. An input that
  contains the weather keyword and neither of the two keywords before it gets the weather
  reply, as the weather question of the specification does; \<open>"xyz"\<close> gets the generic
  reply.
\<close>

theorem first_keyword_reply:
  assumes "\<forall>c. hangul c \<longrightarrow> f c = [c]"
    and "\<forall>c. \<not> hangul c \<longrightarrow> f c \<noteq> [] \<and> (\<forall>d \<in> set (f c). \<not> hangul d)"
  shows "(\<forall>i < length (responses now).
            ci_occurs f (fst (responses now ! i)) user_input \<and>
            (\<forall>j < i. \<not> ci_occurs f (fst (responses now ! j)) user_input) \<longrightarrow>
            local_chatbot_response now user_input = snd (responses now ! i)) \<and>
         ((\<forall>i < length (responses now).
             \<not> ci_occurs f (fst (responses now ! i)) user_input) \<longrightarrow>
            local_chatbot_response now user_input = reply_generic) \<and>
         (sublist kw_weather user_input \<and> \<not> sublist kw_hello user_input \<and>
          \<not> sublist kw_name user_input \<longrightarrow>
            local_chatbot_response now user_input = reply_weather) \<and>
         local_chatbot_response now weather_question = reply_weather \<and>
         local_chatbot_response now (ascii ''xyz'') = reply_generic"
proof -
  have ci: "ci_occurs f (fst (responses now ! i)) user_input =
            str_contains (fst (responses now ! i)) user_input"
    if "i < length (responses now)" for i
    using ci_occurs_hangul[OF assms] keywords_hangul[OF that] by blast
  have first: "local_chatbot_response now user_input = snd (responses now ! i)"
    if i: "i < length (responses now)"
      and m: "ci_occurs f (fst (responses now ! i)) user_input"
      and n: "\<forall>j < i. \<not> ci_occurs f (fst (responses now ! j)) user_input" for i
  proof -
    have "str_contains (fst (responses now ! i)) user_input"
      using m ci[OF i] by simp
    moreover have "\<forall>j < i. \<not> str_contains (fst (responses now ! j)) user_input"
      using n ci i by (meson less_trans)
    ultimately show ?thesis
      unfolding local_chatbot_response_def using i by (rule respond_loop_first_match[rotated])
  qed
  have none: "local_chatbot_response now user_input = reply_generic"
    if "\<forall>i < length (responses now). \<not> ci_occurs f (fst (responses now ! i)) user_input"
  proof -
    have "\<forall>i < length (responses now). \<not> str_contains (fst (responses now ! i)) user_input"
      using that ci by simp
    then show ?thesis
      unfolding local_chatbot_response_def by (rule respond_loop_no_match)
  qed
  have weather: "local_chatbot_response now user_input = reply_weather"
    if "sublist kw_weather user_input \<and> \<not> sublist kw_hello user_input \<and>
        \<not> sublist kw_name user_input"
    using that weather_reply by (simp add: str_contains_sublist)
  show ?thesis
    using first none weather weather_question_reply xyz_reply by blast
qed

theorem first_keyword_reply_witness:
  "local_chatbot_response \<lparr>tm_hour = 9, tm_min = 0\<rparr>
     (ascii ''WEATHER '' @ kw_weather) = reply_weather \<and>
   local_chatbot_response \<lparr>tm_hour = 9, tm_min = 0\<rparr>
     (ascii ''Hello '' @ kw_name @ kw_weather) = snd (responses \<lparr>tm_hour = 9, tm_min = 0\<rparr> ! 1) \<and>
   local_chatbot_response \<lparr>tm_hour = 9, tm_min = 0\<rparr> (ascii ''xyz'') = reply_generic"
proof -
  have h1: "\<forall>c. hangul c \<longrightarrow> ascii_lower c = [c]"
    by (simp add: hangul_def ascii_lower_def)
  have h2: "\<forall>c. \<not> hangul c \<longrightarrow>
              ascii_lower c \<noteq> [] \<and> (\<forall>d \<in> set (ascii_lower c). \<not> hangul d)"
    by (simp add: hangul_def ascii_lower_def)
  have i1: "1 < length (responses \<lparr>tm_hour = 9, tm_min = 0\<rparr>)"
    by (simp add: responses_def)
  have lw: "case_map ascii_lower (ascii ''Hello '' @ kw_name @ kw_weather) =
            ascii ''hello '' @ kw_name @ kw_weather"
    by (simp add: case_map_def ascii_lower_def ascii_def kw_name_def kw_weather_def)
  have ln: "case_map ascii_lower kw_name = kw_name"
    by (simp add: case_map_def ascii_lower_def kw_name_def)
  have m1: "ci_occurs ascii_lower (fst (responses \<lparr>tm_hour = 9, tm_min = 0\<rparr> ! 1))
              (ascii ''Hello '' @ kw_name @ kw_weather)"
    unfolding ci_occurs_def responses_nth fst_conv lw ln
    by (simp add: str_contains_sublist[symmetric] ascii_def kw_name_def kw_weather_def)
  have m0: "\<forall>j < 1. \<not> ci_occurs ascii_lower (fst (responses \<lparr>tm_hour = 9, tm_min = 0\<rparr> ! j))
              (ascii ''Hello '' @ kw_name @ kw_weather)"
    unfolding ci_occurs_def
    by (simp add: responses_nth str_contains_sublist[symmetric] case_map_def ascii_lower_def
        ascii_def kw_name_def kw_weather_def kw_hello_def)
  have w1: "sublist kw_weather (ascii ''WEATHER '' @ kw_weather)"
    and w2: "\<not> sublist kw_hello (ascii ''WEATHER '' @ kw_weather)"
    and w3: "\<not> sublist kw_name (ascii ''WEATHER '' @ kw_weather)"
    by (simp_all add: str_contains_sublist[symmetric] ascii_def kw_weather_def kw_hello_def
        kw_name_def)
  from first_keyword_reply[OF h1 h2, of "\<lparr>tm_hour = 9, tm_min = 0\<rparr>"
         "ascii ''WEATHER '' @ kw_weather"]
       first_keyword_reply[OF h1 h2, of "\<lparr>tm_hour = 9, tm_min = 0\<rparr>"
         "ascii ''Hello '' @ kw_name @ kw_weather"]
       i1 m1 m0 w1 w2 w3
  show ?thesis by blast
qed

text \<open>
  Claim C7, as stated, fails: the reply for the time keyword contains the clock reading,
  so the same input gives different outputs one minute apart.
\<close>

theorem time_reply_counterexample:
  "local_chatbot_response \<lparr>tm_hour = 9, tm_min = 0\<rparr> kw_time
     \<noteq> local_chatbot_response \<lparr>tm_hour = 9, tm_min = 1\<rparr> kw_time"
  by (simp add: local_chatbot_response_def responses_def kw_hello_def kw_name_def
      kw_weather_def kw_time_def reply_time_def strftime_HM_def pad2_def)

text \<open>
  Claim C7, amended. The order of the keywords is the same on every call. The output of
  \<open>local_chatbot_response\<close> depends on the input and on the hour and minute the clock
  shows, and on nothing else: two calls with the same input return the same string when
  the clock shows the same \<open>HH:MM\<close>, and at any two times when the input contains one of
  the first three keywords or does not contain the time keyword. When the time keyword is
  the first that occurs, the reply is the one built from the clock reading.
\<close>

theorem output_depends_on_input_and_clock:
  "map fst (responses t1) = map fst (responses t2) \<and>
   (strftime_HM t1 = strftime_HM t2 \<longrightarrow>
      local_chatbot_response t1 user_input = local_chatbot_response t2 user_input) \<and>
   (sublist kw_hello user_input \<or> sublist kw_name user_input \<or>
    sublist kw_weather user_input \<or> \<not> sublist kw_time user_input \<longrightarrow>
      local_chatbot_response t1 user_input = local_chatbot_response t2 user_input) \<and>
   (\<not> sublist kw_hello user_input \<and> \<not> sublist kw_name user_input \<and>
    \<not> sublist kw_weather user_input \<and> sublist kw_time user_input \<longrightarrow>
      local_chatbot_response t1 user_input = reply_time t1)"
  by (simp add: local_chatbot_response_def responses_def reply_time_def
      str_contains_sublist[symmetric])

theorem output_depends_on_input_and_clock_witness:
  "local_chatbot_response \<lparr>tm_hour = 9, tm_min = 0\<rparr> weather_question =
     local_chatbot_response \<lparr>tm_hour = 9, tm_min = 1\<rparr> weather_question \<and>
   local_chatbot_response \<lparr>tm_hour = 9, tm_min = 0\<rparr> kw_time =
     reply_time \<lparr>tm_hour = 9, tm_min = 0\<rparr> \<and>
   local_chatbot_response \<lparr>tm_hour = 9, tm_min = 0\<rparr> kw_time =
     local_chatbot_response \<lparr>tm_hour = 9, tm_min = 0\<rparr> kw_time"
proof -
  have w: "sublist kw_weather weather_question"
    by (simp add: str_contains_sublist[symmetric] weather_question_def kw_weather_def)
  have t: "\<not> sublist kw_hello kw_time \<and> \<not> sublist kw_name kw_time \<and>
           \<not> sublist kw_weather kw_time \<and> sublist kw_time kw_time"
    by (simp add: str_contains_sublist[symmetric] kw_hello_def kw_name_def kw_weather_def
        kw_time_def)
  have c: "strftime_HM \<lparr>tm_hour = 9, tm_min = 0\<rparr> = strftime_HM \<lparr>tm_hour = 9, tm_min = 0\<rparr>"
    by simp
  from output_depends_on_input_and_clock[of "\<lparr>tm_hour = 9, tm_min = 0\<rparr>"
         "\<lparr>tm_hour = 9, tm_min = 1\<rparr>" weather_question]
       output_depends_on_input_and_clock[of "\<lparr>tm_hour = 9, tm_min = 0\<rparr>"
         "\<lparr>tm_hour = 9, tm_min = 0\<rparr>" kw_time]
       w t c
  show ?thesis by blast
qed

section \<open>Properties of the client initializer\<close>

lemma init_body_returns: "\<exists>h. fst (init_body secrets boto3) = Inr h"
  by (simp add: init_body_def split: prod.splits sum.splits)

lemma construct_count_append:
  "construct_count (xs @ ys) = construct_count xs + construct_count ys"
  by (induction xs rule: construct_count.induct) auto

lemma construct_count_elements: "construct_count (filter is_element evs) = 0"
  by (induction evs rule: construct_count.induct) auto

lemma construct_count_init_try: "construct_count (snd (init_try secrets boto3)) \<le> 1"
  by (simp add: init_try_def split: sum.splits)

lemma init_first_call:
  assumes "resource_cache w = None"
  shows "init_bedrock_client secrets boto3 w =
         (fst (init_body secrets boto3),
          w\<lparr>log := log w @ snd (init_body secrets boto3),
            resource_cache :=
              Some (projr (fst (init_body secrets boto3)),
                    filter is_element (snd (init_body secrets boto3)))\<rparr>)"
proof -
  obtain h where "fst (init_body secrets boto3) = Inr h"
    using init_body_returns by blast
  then show ?thesis
    using assms
    by (cases "init_body secrets boto3")
       (simp add: init_bedrock_client_def cache_resource_def emit_def)
qed

lemma init_cached_call:
  assumes "resource_cache w = Some (v, elements)"
  shows "init_bedrock_client secrets boto3 w = (Inr v, w\<lparr>log := log w @ elements\<rparr>)"
  using assms by (simp add: init_bedrock_client_def cache_resource_def emit_def)

text \<open>
  Claim C5. \<open>init_bedrock_client\<close> always returns a value, whatever the secrets store and
  the constructor do and whatever the cache holds. On a first call whose \<open>try\<close> block
  raises \<open>e\<close> (a secret that cannot be read, or a constructor that fails), it reports the
  error message built from \<open>str(e)\<close> and returns \<open>None\<close>.
\<close>

theorem init_never_raises:
  "(\<exists>h. fst (init_bedrock_client secrets boto3 w) = Inr h) \<and>
   (resource_cache w = None \<and> fst (init_try secrets boto3) = Inl e \<longrightarrow>
      fst (init_bedrock_client secrets boto3 w) = Inr None \<and>
      events_since w (snd (init_bedrock_client secrets boto3 w)) =
        snd (init_try secrets boto3) @ [StError (init_failed_msg @ exn_str e)])"
proof -
  have a: "\<exists>h. fst (init_bedrock_client secrets boto3 w) = Inr h"
  proof (cases "resource_cache w")
    case None
    then show ?thesis
      using init_first_call[OF None, of secrets boto3] init_body_returns[of secrets boto3]
      by simp
  next
    case (Some entry)
    then show ?thesis
      using init_cached_call[of w "fst entry" "snd entry" secrets boto3] by simp
  qed
  have b: "fst (init_bedrock_client secrets boto3 w) = Inr None \<and>
      events_since w (snd (init_bedrock_client secrets boto3 w)) =
        snd (init_try secrets boto3) @ [StError (init_failed_msg @ exn_str e)]"
    if c: "resource_cache w = None" and f: "fst (init_try secrets boto3) = Inl e"
  proof -
    have "init_body secrets boto3 =
          (Inr None, snd (init_try secrets boto3) @ [StError (init_failed_msg @ exn_str e)])"
      using f by (cases "init_try secrets boto3") (simp add: init_body_def)
    then show ?thesis
      unfolding init_first_call[OF c] by (simp add: events_since_def)
  qed
  from a b show ?thesis by blast
qed

theorem init_never_raises_witness:
  "fst (init_bedrock_client no_secrets some_boto3 example_world) = Inr None \<and>
   events_since example_world (snd (init_bedrock_client no_secrets some_boto3 example_world)) =
     [StError (init_failed_msg @ exn_str (KeyError (ascii ''AWS_DEFAULT_REGION'')))]"
proof -
  have c: "resource_cache example_world = None"
    by (simp add: example_world_def)
  have t: "init_try no_secrets some_boto3 = (Inl (KeyError (ascii ''AWS_DEFAULT_REGION'')), [])"
    by (simp add: init_try_def no_secrets_def)
  then have f: "fst (init_try no_secrets some_boto3) = Inl (KeyError (ascii ''AWS_DEFAULT_REGION''))"
    by simp
  from init_never_raises[of no_secrets some_boto3 example_world
         "KeyError (ascii ''AWS_DEFAULT_REGION'')"] c f t
  show ?thesis by simp
qed

text \<open>
  Claim C6, as stated, fails: after a first call whose construction failed, a second call
  with a configuration that would build a handle still returns \<open>None\<close> and constructs
  nothing.
\<close>

theorem failure_is_cached_counterexample:
  "fst (init_bedrock_client no_secrets some_boto3 example_world) = Inr None \<and>
   fst (init_bedrock_client some_secrets some_boto3 example_world) =
     Inr (Some (scripted 0 (Inr hello_body))) \<and>
   fst (init_bedrock_client some_secrets some_boto3
          (snd (init_bedrock_client no_secrets some_boto3 example_world))) = Inr None \<and>
   construct_count
     (log (snd (init_bedrock_client some_secrets some_boto3
                  (snd (init_bedrock_client no_secrets some_boto3 example_world))))) = 0"
  by (simp add: init_bedrock_client_def cache_resource_def init_body_def init_try_def
      no_secrets_def some_secrets_def some_boto3_def example_world_def emit_def)

text \<open>
  Claim C6, amended. In a process whose cache is still empty, the first call of
  \<open>init_bedrock_client\<close> stores what it returns, the handle it built or the \<open>None\<close> it
  returns after a failed construction; every later call, in any later state of the process
  with that cache entry, returns the same value and constructs nothing, whatever the
  secrets store and the constructor would do by then. So the handle is constructed at most
  once, and a failed construction is not tried again.
\<close>

theorem result_of_first_call_is_cached:
  assumes "resource_cache w = None"
    and "resource_cache w' = resource_cache (snd (init_bedrock_client secrets boto3 w))"
  shows "fst (init_bedrock_client secrets' boto3' w') =
           fst (init_bedrock_client secrets boto3 w) \<and>
         construct_count (events_since w (snd (init_bedrock_client secrets boto3 w))) \<le> 1 \<and>
         construct_count (events_since w' (snd (init_bedrock_client secrets' boto3' w'))) = 0 \<and>
         resource_cache (snd (init_bedrock_client secrets' boto3' w')) = resource_cache w' \<and>
         (\<forall>c. fst (init_try secrets boto3) = Inr c \<longrightarrow>
              fst (init_bedrock_client secrets' boto3' w') = Inr (Some c)) \<and>
         (\<forall>e. fst (init_try secrets boto3) = Inl e \<longrightarrow>
              fst (init_bedrock_client secrets' boto3' w') = Inr None)"
proof -
  obtain h where h: "fst (init_body secrets boto3) = Inr h"
    using init_body_returns by blast
  define els where "els = filter is_element (snd (init_body secrets boto3))"
  have first: "init_bedrock_client secrets boto3 w =
      (Inr h, w\<lparr>log := log w @ snd (init_body secrets boto3),
                resource_cache := Some (h, els)\<rparr>)"
    unfolding init_first_call[OF assms(1)] els_def using h by simp
  have "resource_cache w' = Some (h, els)"
    using assms(2) first by simp
  note second = init_cached_call[OF this, of secrets' boto3']
  have cnt: "construct_count (snd (init_body secrets boto3)) \<le> 1"
    using construct_count_init_try[of secrets boto3]
    by (cases "init_try secrets boto3")
       (auto simp: init_body_def construct_count_append split: sum.splits)
  have ok: "h = Some c" if "fst (init_try secrets boto3) = Inr c" for c
    using that h by (cases "init_try secrets boto3") (simp add: init_body_def)
  have bad: "h = None" if "fst (init_try secrets boto3) = Inl e" for e
    using that h by (cases "init_try secrets boto3") (simp add: init_body_def)
  show ?thesis
    unfolding first second
    using cnt ok bad \<open>resource_cache w' = Some (h, els)\<close>
    by (simp add: events_since_def els_def construct_count_elements)
qed

theorem result_of_first_call_is_cached_witness:
  "fst (init_bedrock_client no_secrets some_boto3
          (snd (init_bedrock_client some_secrets some_boto3 example_world))) =
     Inr (Some (scripted 0 (Inr hello_body))) \<and>
   construct_count (events_since
     (snd (init_bedrock_client some_secrets some_boto3 example_world))
     (snd (init_bedrock_client no_secrets some_boto3
          (snd (init_bedrock_client some_secrets some_boto3 example_world))))) = 0"
proof -
  have a: "resource_cache example_world = None"
    by (simp add: example_world_def)
  have b: "resource_cache (snd (init_bedrock_client some_secrets some_boto3 example_world)) =
           resource_cache (snd (init_bedrock_client some_secrets some_boto3 example_world))"
    by simp
  have t: "fst (init_try some_secrets some_boto3) = Inr (scripted 0 (Inr hello_body))"
    by (simp add: init_try_def some_secrets_def some_boto3_def)
  from result_of_first_call_is_cached[OF a b, of no_secrets some_boto3] t
  show ?thesis by blast
qed

section \<open>The conversation during one prompt\<close>

lemma session_messages_emit: "session_messages (emit evs w) = session_messages w"
  by (simp add: emit_def)

lemma session_messages_try_block:
  "session_messages (snd (try_block client msgs w)) = session_messages w"
  by (simp add: try_block_def invoke_model_def split: sum.splits)

lemma session_messages_retry_loop:
  "session_messages (snd (retry_loop client msgs rcs w)) = session_messages w"
proof (induction rcs arbitrary: w)
  case Nil
  then show ?case by simp
next
  case (Cons rc rcs)
  obtain outcome w1 where t: "try_block client msgs w = (outcome, w1)"
    by (cases "try_block client msgs w")
  then have w1: "session_messages w1 = session_messages w"
    using session_messages_try_block[of client msgs w] by simp
  show ?case
  proof (cases outcome)
    case (Inr v)
    with t w1 show ?thesis by simp
  next
    case (Inl e)
    show ?thesis
    proof (cases e)
      case (ThrottlingException m)
      with Inl t w1 Cons.IH show ?thesis by (simp add: session_messages_emit)
    next
      case (Exception description category)
      with Inl t w1 show ?thesis by (simp add: session_messages_emit)
    qed
  qed
qed

lemma session_messages_call:
  "session_messages (snd (call_bedrock_api client msgs w)) = session_messages w"
  by (simp add: call_bedrock_api_def session_messages_retry_loop)

lemma session_messages_init:
  "session_messages (snd (init_bedrock_client secrets boto3 w)) = session_messages w"
  by (simp add: init_bedrock_client_def cache_resource_def emit_def
      split: option.splits prod.splits sum.splits)

lemma session_messages_typing_loop:
  "session_messages (snd (typing_loop chars placeholder_text w)) = session_messages w"
  by (induction chars placeholder_text w rule: typing_loop.induct)
     (simp_all add: session_messages_emit)

lemma session_messages_typing_effect:
  "session_messages (snd (typing_effect full_response w)) = session_messages w"
  by (simp add: typing_effect_def session_messages_typing_loop split: sum.splits)

lemma typing_loop_str:
  "fst (typing_loop (map (\<lambda>c. JStr [c]) s) placeholder_text w) = None"
  by (induction s arbitrary: placeholder_text w) simp_all

lemma typing_effect_str: "fst (typing_effect (JStr s) w) = None"
  by (simp add: typing_effect_def typing_loop_str)

lemma session_messages_begin_turn:
  "session_messages (begin_turn prompt w) =
   session_messages w @ [\<lparr>role = role_user, content = JStr prompt\<rparr>]"
  by (simp add: begin_turn_def append_message_def emit_def)

lemma main_on_prompt_messages:
  assumes "generate_response secrets boto3 now use_bedrock prompt (begin_turn prompt w) =
           (Inr full_response, w1)"
    and "session_messages w1 = session_messages (begin_turn prompt w)"
  shows "session_messages (snd (main_on_prompt secrets boto3 now use_bedrock prompt w)) =
         session_messages w @ [\<lparr>role = role_user, content = JStr prompt\<rparr>]
         @ (if fst (main_on_prompt secrets boto3 now use_bedrock prompt w) = None
            then [\<lparr>role = role_assistant, content = full_response\<rparr>] else [])"
    and "fst (main_on_prompt secrets boto3 now use_bedrock prompt w) =
         fst (typing_effect full_response w1)"
proof -
  obtain r w2 where t: "typing_effect full_response w1 = (r, w2)"
    by (cases "typing_effect full_response w1")
  then have w2: "session_messages w2 = session_messages w1"
    using session_messages_typing_effect[of full_response w1] by simp
  show "session_messages (snd (main_on_prompt secrets boto3 now use_bedrock prompt w)) =
         session_messages w @ [\<lparr>role = role_user, content = JStr prompt\<rparr>]
         @ (if fst (main_on_prompt secrets boto3 now use_bedrock prompt w) = None
            then [\<lparr>role = role_assistant, content = full_response\<rparr>] else [])"
    using assms t w2
    by (cases r)
       (simp_all add: main_on_prompt_def append_message_def emit_def
          session_messages_begin_turn)
  show "fst (main_on_prompt secrets boto3 now use_bedrock prompt w) =
         fst (typing_effect full_response w1)"
    using assms(1) t by (cases r) (simp_all add: main_on_prompt_def)
qed

lemma retry_loop_requests:
  "\<exists>evs. log (snd (retry_loop client msgs rcs w)) = log w @ evs \<and>
         (\<forall>a. InvokeModel a \<in> set evs \<longrightarrow> a = build_request msgs)"
proof (induction rcs arbitrary: w)
  case Nil
  then show ?case by simp
next
  case (Cons rc rcs)
  obtain outcome w1 where t: "try_block client msgs w = (outcome, w1)"
    by (cases "try_block client msgs w")
  then have w1: "log w1 = log w @ [InvokeModel (build_request msgs)]"
    by (auto simp: try_block_def invoke_model_def split: sum.splits)
  show ?case
  proof (cases outcome)
    case (Inr v)
    with t w1 show ?thesis by simp
  next
    case (Inl e)
    show ?thesis
    proof (cases e)
      case (ThrottlingException m)
      define w2 where "w2 = emit [StWarning (warning_msg rc), Sleep (PyInt (delay rc))] w1"
      from Cons.IH[of w2] obtain evs
        where evs: "log (snd (retry_loop client msgs rcs w2)) = log w2 @ evs"
          and a: "\<forall>a. InvokeModel a \<in> set evs \<longrightarrow> a = build_request msgs"
        by blast
      have r: "retry_loop client msgs (rc # rcs) w = retry_loop client msgs rcs w2"
        using t Inl ThrottlingException by (simp add: w2_def)
      have "log (snd (retry_loop client msgs (rc # rcs) w)) =
            log w @ ([InvokeModel (build_request msgs), StWarning (warning_msg rc),
                      Sleep (PyInt (delay rc))] @ evs)"
        unfolding r evs by (simp add: w2_def emit_def w1)
      moreover have "\<forall>a. InvokeModel a \<in> set ([InvokeModel (build_request msgs),
          StWarning (warning_msg rc), Sleep (PyInt (delay rc))] @ evs) \<longrightarrow>
          a = build_request msgs"
        using a by auto
      ultimately show ?thesis by blast
    next
      case (Exception description category)
      with Inl t w1 show ?thesis by (simp add: emit_def)
    qed
  qed
qed

lemma call_requests:
  "InvokeModel a \<in> set (events_since w (snd (call_bedrock_api client msgs w))) \<Longrightarrow>
   messages (body a) = msgs"
proof -
  assume a: "InvokeModel a \<in> set (events_since w (snd (call_bedrock_api client msgs w)))"
  obtain evs where "log (snd (call_bedrock_api client msgs w)) = log w @ evs"
    and "\<forall>a. InvokeModel a \<in> set evs \<longrightarrow> a = build_request msgs"
    unfolding call_bedrock_api_def using retry_loop_requests by blast
  with a have "a = build_request msgs" by (simp add: events_since_def)
  then show ?thesis by (simp add: build_request_def)
qed

text \<open>
  Claim C9. \<open>call_bedrock_api\<close> leaves the conversation as it found it, whatever the
  service does on each attempt, and every attempt sends that same conversation. In
  \<open>main\<close>, when the handle is there, the conversation after the prompt is the old one,
  the user's message, and then at most one assistant message, whose content is the value
  \<open>call_bedrock_api\<close> returned for the conversation ending with the user's message; that
  message is appended when the run completes, which it does whenever the returned value is
  a string.
\<close>

theorem retries_silent_to_conversation:
  "session_messages (snd (call_bedrock_api client msgs w)) = session_messages w \<and>
   (\<forall>a. InvokeModel a \<in> set (events_since w (snd (call_bedrock_api client msgs w))) \<longrightarrow>
        messages (body a) = msgs) \<and>
   (init_bedrock_client secrets boto3 (begin_turn prompt w) = (Inr (Some bedrock_client), w1) \<longrightarrow>
      session_messages (snd (call_bedrock_api bedrock_client
          (session_messages w @ [\<lparr>role = role_user, content = JStr prompt\<rparr>])
          (emit [Spinner spinner_bedrock] w1))) =
        session_messages w @ [\<lparr>role = role_user, content = JStr prompt\<rparr>] \<and>
      session_messages (snd (main_on_prompt secrets boto3 now True prompt w)) =
        session_messages w @ [\<lparr>role = role_user, content = JStr prompt\<rparr>]
        @ (if fst (main_on_prompt secrets boto3 now True prompt w) = None
           then [\<lparr>role = role_assistant,
                  content = fst (call_bedrock_api bedrock_client
                    (session_messages w @ [\<lparr>role = role_user, content = JStr prompt\<rparr>])
                    (emit [Spinner spinner_bedrock] w1))\<rparr>]
           else []) \<and>
      (\<forall>t. fst (call_bedrock_api bedrock_client
                (session_messages w @ [\<lparr>role = role_user, content = JStr prompt\<rparr>])
                (emit [Spinner spinner_bedrock] w1)) = JStr t \<longrightarrow>
           fst (main_on_prompt secrets boto3 now True prompt w) = None))"
proof -
  have b: "session_messages (snd (call_bedrock_api bedrock_client
          (session_messages w @ [\<lparr>role = role_user, content = JStr prompt\<rparr>])
          (emit [Spinner spinner_bedrock] w1))) =
        session_messages w @ [\<lparr>role = role_user, content = JStr prompt\<rparr>] \<and>
      session_messages (snd (main_on_prompt secrets boto3 now True prompt w)) =
        session_messages w @ [\<lparr>role = role_user, content = JStr prompt\<rparr>]
        @ (if fst (main_on_prompt secrets boto3 now True prompt w) = None
           then [\<lparr>role = role_assistant,
                  content = fst (call_bedrock_api bedrock_client
                    (session_messages w @ [\<lparr>role = role_user, content = JStr prompt\<rparr>])
                    (emit [Spinner spinner_bedrock] w1))\<rparr>]
           else []) \<and>
      (\<forall>t. fst (call_bedrock_api bedrock_client
                (session_messages w @ [\<lparr>role = role_user, content = JStr prompt\<rparr>])
                (emit [Spinner spinner_bedrock] w1)) = JStr t \<longrightarrow>
           fst (main_on_prompt secrets boto3 now True prompt w) = None)"
    if i: "init_bedrock_client secrets boto3 (begin_turn prompt w) = (Inr (Some bedrock_client), w1)"
  proof -
    let ?msgs = "session_messages w @ [\<lparr>role = role_user, content = JStr prompt\<rparr>]"
    let ?c = "call_bedrock_api bedrock_client ?msgs (emit [Spinner spinner_bedrock] w1)"
    have m1: "session_messages w1 = ?msgs"
      using session_messages_init[of secrets boto3 "begin_turn prompt w"] i
      by (simp add: session_messages_begin_turn)
    have m2: "session_messages (snd ?c) = ?msgs"
      using m1 by (simp add: session_messages_call session_messages_emit)
    have g: "generate_response secrets boto3 now True prompt (begin_turn prompt w) =
             (Inr (fst ?c), snd ?c)"
      using i m1 by (simp add: generate_response_def split: prod.splits)
    have m3: "session_messages (snd ?c) = session_messages (begin_turn prompt w)"
      using m2 by (simp add: session_messages_begin_turn)
    note r = main_on_prompt_messages[OF g m3]
    show ?thesis
      using m2 r typing_effect_str by simp
  qed
  show ?thesis
    using session_messages_call[of client msgs w] call_requests[of _ w client msgs] b by blast
qed

theorem retries_silent_to_conversation_witness:
  "session_messages (snd (main_on_prompt some_secrets
       (\<lambda>s r k x. Inr (scripted 2 (Inr hello_body)))
       \<lparr>tm_hour = 9, tm_min = 0\<rparr> True (ascii ''hi'') example_world)) =
     [\<lparr>role = role_user, content = JStr (ascii ''hi'')\<rparr>,
      \<lparr>role = role_assistant, content = JStr (ascii ''hello'')\<rparr>]"
proof -
  let ?boto3 = "\<lambda>s r k x. Inr (scripted 2 (Inr hello_body)) :: exn + client"
  define w1 where "w1 = snd (init_bedrock_client some_secrets ?boto3
                               (begin_turn (ascii ''hi'') example_world))"
  have i: "init_bedrock_client some_secrets ?boto3 (begin_turn (ascii ''hi'') example_world) =
           (Inr (Some (scripted 2 (Inr hello_body))), w1)"
    unfolding w1_def
    by (simp add: init_bedrock_client_def cache_resource_def init_body_def init_try_def
        some_secrets_def begin_turn_def append_message_def emit_def example_world_def)
  have inv: "invocations w1 = 0"
    unfolding w1_def
    by (simp add: init_bedrock_client_def cache_resource_def init_body_def init_try_def
        some_secrets_def begin_turn_def append_message_def emit_def example_world_def)
  have k: "(2::nat) < 5" by simp
  have th: "\<forall>i < 2. throttled_at (scripted 2 (Inr hello_body))
      (session_messages example_world @ [\<lparr>role = role_user, content = JStr (ascii ''hi'')\<rparr>])
      (invocations (emit [Spinner spinner_bedrock] w1) + i)"
    by (simp add: throttled_at_def scripted_def emit_def inv)
  have ok: "scripted 2 (Inr hello_body) (invocations (emit [Spinner spinner_bedrock] w1) + 2)
      (build_request
        (session_messages example_world @ [\<lparr>role = role_user, content = JStr (ascii ''hi'')\<rparr>])) =
      Inr hello_body"
    by (simp add: scripted_def)
  have hb: "hello_body = hello_body \<or>
         (\<exists>kvs. hello_body = JDict kvs \<and>
            (ascii ''content'' \<notin> fst ` set kvs \<or>
             map_of kvs (ascii ''content'') = Some (JList [])))"
    by simp
  have c: "fst (call_bedrock_api (scripted 2 (Inr hello_body))
      (session_messages example_world @ [\<lparr>role = role_user, content = JStr (ascii ''hi'')\<rparr>])
      (emit [Spinner spinner_bedrock] w1)) = JStr (ascii ''hello'')"
    using call_success_after_throttles(1)[OF _ th ok extract_text_hello]
    by (simp add: max_retries_def)
  from retries_silent_to_conversation[of _ _ example_world some_secrets ?boto3 "ascii ''hi''"
         "scripted 2 (Inr hello_body)" w1 "\<lparr>tm_hour = 9, tm_min = 0\<rparr>"] i c
  show ?thesis by (simp add: example_world_def)
qed

end
